theory Spec2Isabelle
  imports Complex_Main
begin

section \<open>Python values used by \<open>Backend/main.py\<close>\<close>

text \<open>
  Python strings are modelled as \<open>string\<close> (lists of 8-bit characters, so code points
  below 256), Python's unbounded integers as \<open>int\<close>.  An exception raised by a helper
  or by a collaborator is a value of \<open>exn\<close>; the only exception class the endpoints
  tell apart from the others is \<open>ValueError\<close>.  The endpoints themselves raise
  \<open>HTTPException(status_code, detail)\<close>.
\<close>

datatype exn = ValueError string | OtherException string

datatype HTTPException = HTTPException (status_code: nat) (detail: string)

text \<open>\<open>str(e)\<close> of an exception built from one message.\<close>

fun str_exn :: "exn \<Rightarrow> string" where
  "str_exn (ValueError m) = m"
| "str_exn (OtherException m) = m"

text \<open>
  \<open>str.isspace\<close> on the code points below 256: tab, line feed, vertical tab, form feed,
  carriage return, the separators 0x1C..0x1F, space, NEL (0x85) and the no-break space.
\<close>

definition isspace :: "char \<Rightarrow> bool" where
  "isspace c \<longleftrightarrow> c \<in> set [CHR 0x09, CHR 0x0A, CHR 0x0B, CHR 0x0C, CHR 0x0D,
     CHR 0x1C, CHR 0x1D, CHR 0x1E, CHR 0x1F, CHR 0x20, CHR 0x85, CHR 0xA0]"

text \<open>
  \<open>text.split()\<close> with no argument: the maximal runs of non-whitespace characters, in
  order.  \<open>split_acc cur s\<close> scans \<open>s\<close> with the word read so far in \<open>cur\<close>.
\<close>

fun split_acc :: "string \<Rightarrow> string \<Rightarrow> string list" where
  "split_acc cur [] = (if cur = [] then [] else [cur])"
| "split_acc cur (c # cs) =
     (if isspace c then (if cur = [] then split_acc [] cs else cur # split_acc [] cs)
      else split_acc (cur @ [c]) cs)"

definition split_str :: "string \<Rightarrow> string list" where
  "split_str s = split_acc [] s"

text \<open>\<open>sep.join(xs)\<close>.\<close>

fun join_str :: "string \<Rightarrow> string list \<Rightarrow> string" where
  "join_str sep [] = []"
| "join_str sep [x] = x"
| "join_str sep (x # y # ys) = x @ sep @ join_str sep (y # ys)"

text \<open>
  \<open>xs[i:j]\<close>: a negative bound counts from the end, and both bounds are clipped to
  \<open>0..len(xs)\<close>; the slice is empty when the bounds cross.
\<close>

definition slice_bound :: "int \<Rightarrow> int \<Rightarrow> int" where
  "slice_bound n k = (if k < 0 then max 0 (k + n) else min k n)"

definition slice :: "'a list \<Rightarrow> int \<Rightarrow> int \<Rightarrow> 'a list" where
  "slice xs i j =
     (let n = int (length xs); a = slice_bound n i; b = slice_bound n j
      in take (nat (b - a)) (drop (nat a) xs))"

text \<open>
  \<open>range(start, stop, step)\<close>: a zero step raises \<open>ValueError\<close>; otherwise the range
  has \<open>range_len\<close> items, the \<open>k\<close>-th being \<open>start + k * step\<close>.
\<close>

definition range_len :: "int \<Rightarrow> int \<Rightarrow> int \<Rightarrow> nat" where
  "range_len start stop step =
     (if 0 < step then (if start < stop then nat ((stop - start - 1) div step + 1) else 0)
      else (if stop < start then nat ((start - stop - 1) div (- step) + 1) else 0))"

definition range_py :: "int \<Rightarrow> int \<Rightarrow> int \<Rightarrow> exn + int list" where
  "range_py start stop step =
     (if step = 0 then Inl (ValueError ''range() arg 3 must not be zero'')
      else Inr (map (\<lambda>k. start + int k * step) [0..<range_len start stop step]))"

section \<open>Helper functions\<close>

subsection \<open>\<open>extract_video_id\<close>\<close>

text \<open>
  The one pattern of \<open>extract_video_id\<close> is an alternation of three literal prefixes
  followed by the group \<open>([^&\n?#]+)\<close>.  \<open>match_here\<close> tries the alternatives in their
  order at the head of the string; the group is greedy and ends the pattern, so it is
  the longest run of permitted characters, and the alternative fails when that run is
  empty.  \<open>re_search\<close> is \<open>re.search\<close>: the leftmost position with a match.
\<close>

definition prefixes :: "string list" where
  "prefixes = [''youtube.com/watch?v='', ''youtu.be/'', ''youtube.com/embed/'']"

definition id_char :: "char \<Rightarrow> bool" where
  "id_char c \<longleftrightarrow> c \<notin> set [CHR ''&'', CHR 0x0A, CHR ''?'', CHR ''#'']"

fun match_here :: "string list \<Rightarrow> string \<Rightarrow> string option" where
  "match_here [] s = None"
| "match_here (p # ps) s =
     (if take (length p) s = p \<and> takeWhile id_char (drop (length p) s) \<noteq> []
      then Some (takeWhile id_char (drop (length p) s))
      else match_here ps s)"

fun re_search :: "string \<Rightarrow> string option" where
  "re_search [] = match_here prefixes []"
| "re_search (c # cs) =
     (case match_here prefixes (c # cs) of
        Some g \<Rightarrow> Some g
      | None \<Rightarrow> re_search cs)"

definition extract_video_id :: "string \<Rightarrow> exn + string" where
  "extract_video_id url =
     (case re_search url of
        Some g \<Rightarrow> Inr g
      | None \<Rightarrow> Inl (ValueError ''Invalid YouTube URL''))"

subsection \<open>\<open>chunk_text\<close>\<close>

record chunk =
  text_c :: string
  start_idx :: int

text \<open>
  The body of the \<open>for\<close> loop of \<open>chunk_text\<close>, run over the items of the range with
  the list \<open>chunks\<close> built so far.
\<close>

fun chunk_loop :: "string list \<Rightarrow> int \<Rightarrow> int list \<Rightarrow> chunk list \<Rightarrow> chunk list" where
  "chunk_loop words chunk_size [] chunks = chunks"
| "chunk_loop words chunk_size (i # is) chunks =
     (let chunk = join_str '' '' (slice words i (i + chunk_size))
      in chunk_loop words chunk_size is
           (if chunk \<noteq> [] then chunks @ [\<lparr>text_c = chunk, start_idx = i\<rparr>] else chunks))"

definition chunk_text :: "string \<Rightarrow> int \<Rightarrow> int \<Rightarrow> exn + chunk list" where
  "chunk_text text chunk_size overlap =
     (let words = split_str text
      in case range_py 0 (int (length words)) (chunk_size - overlap) of
           Inl e \<Rightarrow> Inl e
         | Inr is \<Rightarrow> Inr (chunk_loop words chunk_size is []))"


text \<open>
  The chunk the loop builds at offset \<open>i\<close>, and the number of chunks the specification
  gives for \<open>n\<close> words, \<open>ceil(max(n - overlap, 0) / (chunk_size - overlap))\<close>, written
  from the specification's words for comparison with \<open>chunk_text\<close>.
\<close>

definition chunk_at :: "string list \<Rightarrow> int \<Rightarrow> int \<Rightarrow> chunk" where
  "chunk_at words chunk_size i =
     \<lparr>text_c = join_str '' '' (slice words i (i + chunk_size)), start_idx = i\<rparr>"

definition spec_chunk_count :: "nat \<Rightarrow> int \<Rightarrow> int \<Rightarrow> int" where
  "spec_chunk_count n chunk_size overlap =
     \<lceil>real_of_int (max (int n - overlap) 0) / real_of_int (chunk_size - overlap)\<rceil>"

section \<open>The collaborators\<close>

subsection \<open>The vector store\<close>

text \<open>
  A stored point is a \<open>PointStruct(id, vector, payload)\<close>; the payload is the dictionary
  with the four keys \<open>process_video\<close> writes.  The vector type is left open.
\<close>

record payload =
  video_id :: string
  text_p :: string
  chunk_index :: nat
  video_url_p :: string

record 'v PointStruct =
  point_id :: string
  vector :: 'v
  payload :: payload

text \<open>
  Modelled from the spec: the Qdrant client (\<open>qdrant_client\<close>) is an external library and
  not part of the repository, so its state and its operations \<open>get_collection\<close>,
  \<open>create_collection\<close>, \<open>delete\<close>, \<open>upsert\<close> and \<open>query_points\<close> follow the interface the
  specification gives for the vector index collaborator (collection create/exists,
  delete-by-filter, upsert, similarity-search-with-filter).  The client's state maps a
  collection name to the points of that collection, one per point id.  Every operation
  on a collection that does not exist raises.  The only filter the program uses is
  \<open>must = [video_id == value]\<close>, which is \<open>matches\<close>.
\<close>

type_synonym 'v qdrant = "string \<rightharpoonup> 'v PointStruct list"

definition COLLECTION_NAME :: string where
  "COLLECTION_NAME = ''video_transcripts''"

definition not_found :: "string \<Rightarrow> exn" where
  "not_found name = ValueError (''Collection '' @ name @ '' not found'')"

definition matches :: "string \<Rightarrow> 'v PointStruct \<Rightarrow> bool" where
  "matches vid p \<longleftrightarrow> video_id (payload p) = vid"

definition qdrant_get_collection :: "'v qdrant \<Rightarrow> string \<Rightarrow> exn + 'v PointStruct list" where
  "qdrant_get_collection c name =
     (case c name of None \<Rightarrow> Inl (not_found name) | Some pts \<Rightarrow> Inr pts)"

definition qdrant_create_collection :: "'v qdrant \<Rightarrow> string \<Rightarrow> exn + 'v qdrant" where
  "qdrant_create_collection c name =
     (case c name of
        None \<Rightarrow> Inr (c(name \<mapsto> []))
      | Some pts \<Rightarrow> Inl (ValueError (''Collection '' @ name @ '' already exists'')))"

text \<open>
  Modelled from the spec: \<open>qdrant_client.delete\<close> with the filter removes every matching
  point and succeeds also when no point matches.
\<close>

definition qdrant_delete :: "'v qdrant \<Rightarrow> string \<Rightarrow> string \<Rightarrow> exn + 'v qdrant" where
  "qdrant_delete c name vid =
     (case c name of
        None \<Rightarrow> Inl (not_found name)
      | Some pts \<Rightarrow> Inr (c(name \<mapsto> filter (\<lambda>p. \<not> matches vid p) pts)))"

text \<open>
  Modelled from the spec: \<open>qdrant_client.upsert\<close> writes each point under its id, replacing
  the point that had the id.
\<close>

definition upsert_point :: "'v PointStruct \<Rightarrow> 'v PointStruct list \<Rightarrow> 'v PointStruct list" where
  "upsert_point p pts = filter (\<lambda>q. point_id q \<noteq> point_id p) pts @ [p]"

definition qdrant_upsert :: "'v qdrant \<Rightarrow> string \<Rightarrow> 'v PointStruct list \<Rightarrow> exn + 'v qdrant" where
  "qdrant_upsert c name points =
     (case c name of
        None \<Rightarrow> Inl (not_found name)
      | Some pts \<Rightarrow> Inr (c(name \<mapsto> fold upsert_point points pts)))"

text \<open>
  Modelled from the spec: \<open>qdrant_client.query_points\<close> returns the matching points by
  descending similarity to the query vector, at most \<open>limit\<close> of them, and the empty
  result when no point matches.  The similarity measure is a parameter.
\<close>

definition qdrant_query_points ::
  "('v \<Rightarrow> 'v \<Rightarrow> real) \<Rightarrow> 'v qdrant \<Rightarrow> string \<Rightarrow> 'v \<Rightarrow> string \<Rightarrow> nat \<Rightarrow> exn + 'v PointStruct list" where
  "qdrant_query_points sim c name query vid limit =
     (case c name of
        None \<Rightarrow> Inl (not_found name)
      | Some pts \<Rightarrow>
          Inr (take limit (rev (sort_key (\<lambda>p. sim query (vector p)) (filter (matches vid) pts)))))"

text \<open>The points stored under a video identifier in the program's collection.\<close>

definition stored :: "'v qdrant \<Rightarrow> string \<Rightarrow> 'v PointStruct list" where
  "stored c vid =
     (case c COLLECTION_NAME of None \<Rightarrow> [] | Some pts \<Rightarrow> filter (matches vid) pts)"

subsection \<open>Transcript source, embedding model, identifier source and completion service\<close>

text \<open>
  Each external call of the endpoints is a field of \<open>collaborators\<close>; a call that can raise
  returns \<open>exn + _\<close>.
  \<^item> \<open>fetch\<close>: the \<open>text\<close> items of \<open>ytt_api.fetch(video_id, languages).to_raw_data()\<close>;
  \<^item> \<open>list_find_fetch\<close>: the \<open>text\<close> items of the fallback
    \<open>ytt_api.list(video_id).find_transcript(languages).fetch()\<close>;
  \<^item> \<open>embed\<close>: \<open>list(embedding_model.embed(texts))\<close>;
  \<^item> \<open>similarity\<close>: the measure the store ranks by;
  \<^item> \<open>uuid4\<close>: the value of the \<open>k\<close>-th call of \<open>str(uuid.uuid4())\<close> in a request;
  \<^item> \<open>chat_completions_create\<close>: \<open>choices[0].message.content\<close> of the completion.
\<close>

record ChatRequest =
  messages :: "(string \<times> string) list"
  model :: string
  temperature :: real
  max_tokens :: nat

record 'v collaborators =
  fetch :: "string \<Rightarrow> exn + string list"
  list_find_fetch :: "string \<Rightarrow> exn + string list"
  embed :: "string list \<Rightarrow> exn + 'v list"
  similarity :: "'v \<Rightarrow> 'v \<Rightarrow> real"
  uuid4 :: "nat \<Rightarrow> string"
  chat_completions_create :: "ChatRequest \<Rightarrow> exn + string"

section \<open>The endpoints\<close>

record VideoRequest =
  video_url :: string

record QuestionRequest = VideoRequest +
  question :: string

record AnswerResponse =
  answer :: string
  relevant_chunks :: "string list"

record ProcessResponse =
  message :: string
  video_id_r :: string
  chunks_created :: nat
  transcript_length :: nat

text \<open>
  The handlers that close \<open>process_video\<close> and \<open>ask_question\<close>: a \<open>ValueError\<close> becomes
  status 400, any other exception status 500; an \<open>HTTPException\<close> passes unchanged.
\<close>

fun handle :: "exn \<Rightarrow> HTTPException" where
  "handle (ValueError m) = HTTPException 400 m"
| "handle (OtherException m) = HTTPException 500 (''Internal error: '' @ m)"

definition create_collection_if_not_exists :: "'v qdrant \<Rightarrow> exn + 'v qdrant" where
  "create_collection_if_not_exists c =
     (case qdrant_get_collection c COLLECTION_NAME of
        Inr pts \<Rightarrow> Inr c
      | Inl e \<Rightarrow> qdrant_create_collection c COLLECTION_NAME)"

definition startup_event :: "'v qdrant \<Rightarrow> exn + 'v qdrant" where
  "startup_event c = create_collection_if_not_exists c"

subsection \<open>\<open>process_video\<close>\<close>

definition fetch_transcript :: "'v collaborators \<Rightarrow> string \<Rightarrow> HTTPException + string" where
  "fetch_transcript env vid =
     (case fetch env vid of
        Inr items \<Rightarrow> Inr (join_str '' '' items)
      | Inl e \<Rightarrow>
          (case list_find_fetch env vid of
             Inr items \<Rightarrow> Inr (join_str '' '' items)
           | Inl e2 \<Rightarrow>
               Inl (HTTPException 400
                 (''Failed to fetch transcript: '' @ str_exn e @
                  ''. Alternative method also failed: '' @ str_exn e2))))"

text \<open>The points built by the loop over \<open>enumerate(zip(chunks, embeddings))\<close>.\<close>

definition make_points ::
  "(nat \<Rightarrow> string) \<Rightarrow> string \<Rightarrow> string \<Rightarrow> chunk list \<Rightarrow> 'v list \<Rightarrow> 'v PointStruct list" where
  "make_points uuid vid url chunks embeddings =
     map (\<lambda>(idx, chunk, embedding).
            \<lparr>point_id = uuid idx, vector = embedding,
             payload = \<lparr>video_id = vid, text_p = text_c chunk, chunk_index = idx,
                        video_url_p = url\<rparr>\<rparr>)
       (enumerate 0 (zip chunks embeddings))"

text \<open>
  The delete-then-insert part of \<open>process_video\<close>: the points of the video are deleted,
  an exception of the deletion being passed over, and the new points are upserted.
  The result carries the state the store is left in.
\<close>

definition store_points ::
  "(nat \<Rightarrow> string) \<Rightarrow> 'v qdrant \<Rightarrow> string \<Rightarrow> string \<Rightarrow> chunk list \<Rightarrow> 'v list
     \<Rightarrow> (exn + unit) \<times> 'v qdrant" where
  "store_points uuid c vid url chunks embeddings =
     (let c1 = (case qdrant_delete c COLLECTION_NAME vid of Inl e \<Rightarrow> c | Inr c' \<Rightarrow> c');
          points = make_points uuid vid url chunks embeddings
      in case qdrant_upsert c1 COLLECTION_NAME points of
           Inl e \<Rightarrow> (Inl e, c1)
         | Inr c2 \<Rightarrow> (Inr (), c2))"

definition process_video ::
  "'v collaborators \<Rightarrow> 'v qdrant \<Rightarrow> VideoRequest \<Rightarrow> (HTTPException + ProcessResponse) \<times> 'v qdrant" where
  "process_video env c request =
     (case extract_video_id (video_url request) of
        Inl e \<Rightarrow> (Inl (handle e), c)
      | Inr vid \<Rightarrow>
     (case fetch_transcript env vid of
        Inl h \<Rightarrow> (Inl h, c)
      | Inr transcript_text \<Rightarrow>
     if list_all isspace transcript_text
     then (Inl (HTTPException 400 ''Transcript is empty''), c)
     else
     (case chunk_text transcript_text 500 100 of
        Inl e \<Rightarrow> (Inl (handle e), c)
      | Inr chunks \<Rightarrow>
     if chunks = []
     then (Inl (HTTPException 400 ''Failed to create chunks from transcript''), c)
     else
     (case embed env (map text_c chunks) of
        Inl e \<Rightarrow> (Inl (handle e), c)
      | Inr embeddings \<Rightarrow>
     (case store_points (uuid4 env) c vid (video_url request) chunks embeddings of
        (Inl e, c') \<Rightarrow> (Inl (handle e), c')
      | (Inr u, c') \<Rightarrow>
          (Inr \<lparr>message = ''Video processed successfully'', video_id_r = vid,
                chunks_created = length chunks,
                transcript_length = length transcript_text\<rparr>, c'))))))"

subsection \<open>\<open>ask_question\<close>\<close>

definition nl :: string where
  "nl = [CHR 0x0A]"

text \<open>The user prompt, the f-string of \<open>ask_question\<close>.\<close>

definition prompt :: "string \<Rightarrow> string \<Rightarrow> string" where
  "prompt context q =
     ''You are a helpful assistant that answers questions about video content.'' @ nl @ nl @
     ''Context from the video transcript:'' @ nl @
     context @ nl @ nl @
     ''Question: '' @ q @ nl @ nl @
     ''Please provide a clear, concise answer based on the context provided. '' @
     ''If the context doesn't contain enough information to answer the question, say so.''"

definition chat_request :: "string \<Rightarrow> ChatRequest" where
  "chat_request user_content =
     \<lparr>messages =
        [(''system'', ''You are a helpful assistant that answers questions about video content based on provided transcripts.''),
         (''user'', user_content)],
      model = ''llama-3.3-70b-versatile'',
      temperature = 3 / 10,
      max_tokens = 1024\<rparr>"

definition ask_question ::
  "'v collaborators \<Rightarrow> 'v qdrant \<Rightarrow> QuestionRequest \<Rightarrow> HTTPException + AnswerResponse" where
  "ask_question env c request =
     (case extract_video_id (video_url request) of
        Inl e \<Rightarrow> Inl (handle e)
      | Inr vid \<Rightarrow>
     (case embed env [question request] of
        Inl e \<Rightarrow> Inl (handle e)
      | Inr [] \<Rightarrow> Inl (handle (OtherException ''list index out of range''))
      | Inr (question_embedding # rest) \<Rightarrow>
     (case qdrant_query_points (similarity env) c COLLECTION_NAME question_embedding vid 5 of
        Inl e \<Rightarrow> Inl (handle e)
      | Inr search_results \<Rightarrow>
     if search_results = []
     then Inl (HTTPException 404
            ''No content found for this video. Please process the video first.'')
     else
     (let relevant = map (\<lambda>result. text_p (payload result)) search_results;
          context = join_str (nl @ nl) relevant
      in case chat_completions_create env (chat_request (prompt context (question request))) of
           Inl e \<Rightarrow> Inl (handle e)
         | Inr a \<Rightarrow> Inr \<lparr>answer = a, relevant_chunks = relevant\<rparr>))))"

subsection \<open>\<open>delete_video\<close>\<close>

text \<open>The result is the \<open>message\<close> of the response.\<close>

definition delete_video :: "'v qdrant \<Rightarrow> string \<Rightarrow> (HTTPException + string) \<times> 'v qdrant" where
  "delete_video c vid =
     (case qdrant_delete c COLLECTION_NAME vid of
        Inr c' \<Rightarrow> (Inr (''Video '' @ vid @ '' deleted successfully''), c')
      | Inl e \<Rightarrow> (Inl (HTTPException 500 (''Failed to delete video: '' @ str_exn e)), c))"

section \<open>Example values\<close>

text \<open>
  A store holding two points of the video \<open>abc123\<close> and one of \<open>xyz789\<close>, and
  collaborators that answer every call, used to instantiate the theorems below.
\<close>

definition example_point :: "string \<Rightarrow> string \<Rightarrow> nat \<Rightarrow> int PointStruct" where
  "example_point pid vid idx =
     \<lparr>point_id = pid, vector = 10 * int idx,
      payload = \<lparr>video_id = vid, text_p = ''chunk '' @ pid, chunk_index = idx,
                 video_url_p = ''https://youtu.be/'' @ vid\<rparr>\<rparr>"

definition example_store :: "int qdrant" where
  "example_store =
     [COLLECTION_NAME \<mapsto>
        [example_point ''p0'' ''abc123'' 0, example_point ''q0'' ''xyz789'' 0,
         example_point ''p1'' ''abc123'' 1]]"

definition example_env :: "int collaborators" where
  "example_env =
     \<lparr>fetch = (\<lambda>vid. Inr [''the cat'', ''sat on the mat'']),
      list_find_fetch = (\<lambda>vid. Inl (OtherException ''no transcript'')),
      embed = (\<lambda>texts. Inr (map (\<lambda>t. int (length t)) texts)),
      similarity = (\<lambda>u v. - \<bar>real_of_int (u - v)\<bar>),
      uuid4 = (\<lambda>k. replicate (Suc k) CHR ''u''),
      chat_completions_create =
        (\<lambda>r. if model r = ''llama-3.3-70b-versatile'' then Inr ''It sat on the mat.''
             else Inl (OtherException ''unknown model''))\<rparr>"

section \<open>Properties of the helper functions\<close>

subsection \<open>Words, joins, slices and ranges\<close>

lemma split_acc_nonempty: "w \<in> set (split_acc cur s) \<Longrightarrow> w \<noteq> []"
  by (induction cur s rule: split_acc.induct) (auto split: if_splits)

lemma split_str_nonempty: "[] \<notin> set (split_str s)"
  unfolding split_str_def using split_acc_nonempty by blast

lemma join_str_Nil_iff: "[] \<notin> set xs \<Longrightarrow> join_str sep xs = [] \<longleftrightarrow> xs = []"
  by (induction sep xs rule: join_str.induct) auto

lemma slice_subset: "set (slice xs i j) \<subseteq> set xs"
  by (auto simp: slice_def Let_def dest: in_set_takeD in_set_dropD)

lemma chunk_loop_filter:
  assumes "[] \<notin> set words"
  shows "chunk_loop words c is acc =
     acc @ map (chunk_at words c) (filter (\<lambda>i. slice words i (i + c) \<noteq> []) is)"
  using assms
proof (induction "is" arbitrary: acc)
  case Nil
  then show ?case by simp
next
  case (Cons i "is")
  have "[] \<notin> set (slice words i (i + c))"
    using Cons.prems slice_subset [of words i "i + c"] by auto
  then have "join_str '' '' (slice words i (i + c)) = [] \<longleftrightarrow> slice words i (i + c) = []"
    by (rule join_str_Nil_iff)
  then show ?case
    using Cons by (simp add: Let_def chunk_at_def)
qed

lemma slice_nonempty_iff:
  assumes "0 \<le> i" "i < int (length xs)"
  shows "slice xs i (i + c) \<noteq> [] \<longleftrightarrow> 1 \<le> c \<or> (c < 0 \<and> i < - c \<and> - c < int (length xs))"
  using assms by (auto simp: slice_def slice_bound_def Let_def)

lemma slice_window:
  assumes "0 \<le> i" "1 \<le> c"
  shows "slice xs i (i + c) = take (nat c) (drop (nat i) xs)"
proof (cases "i < int (length xs)")
  case True
  show ?thesis
  proof (cases "i + c \<le> int (length xs)")
    case True
    with \<open>i < int (length xs)\<close> assms show ?thesis
      by (simp add: slice_def slice_bound_def Let_def min_def)
  next
    case False
    with \<open>i < int (length xs)\<close> assms show ?thesis
      by (simp add: slice_def slice_bound_def Let_def min_def)
  qed
next
  case False
  with assms show ?thesis by (simp add: slice_def slice_bound_def Let_def min_def)
qed

lemma ceil_div_pos:
  assumes "0 < (s::int)"
  shows "(n - 1) div s + 1 = - ((- n) div s)"
proof -
  define q where "q = (n - 1) div s"
  define r where "r = (n - 1) mod s"
  have n: "n - 1 = s * q + r" by (simp add: q_def r_def)
  have r: "0 \<le> r" "r < s" using assms by (simp_all add: r_def)
  have "- n = s * (- q - 1) + (s - r - 1)" using n by (simp add: algebra_simps)
  moreover have "0 \<le> s - r - 1" "s - r - 1 < s" using r by simp_all
  ultimately have "(- n) div s = - q - 1" by (rule int_div_pos_eq)
  then show ?thesis by (simp add: q_def)
qed

lemma range_len_ceiling:
  assumes "0 < s"
  shows "int (range_len 0 (int n) s) = \<lceil>real n / real_of_int s\<rceil>"
proof -
  have c: "\<lceil>real n / real_of_int s\<rceil> = - ((- int n) div s)"
    using ceiling_divide_eq_div [of "int n" s] by simp
  show ?thesis
  proof (cases "n = 0")
    case True
    then show ?thesis using assms by (simp add: range_len_def)
  next
    case False
    then have "0 \<le> (int n - 1) div s" using assms by (simp add: pos_imp_zdiv_nonneg_iff)
    then show ?thesis
      using assms False c ceil_div_pos [OF assms, of "int n"] by (simp add: range_len_def)
  qed
qed

lemma range_item_bounds:
  assumes "0 < s" "k < range_len 0 n s"
  shows "0 \<le> int k * s" "int k * s < n"
proof -
  show "0 \<le> int k * s" using assms(1) by simp
  from assms have n: "0 < n" and k: "int k \<le> (n - 1) div s"
    by (auto simp: range_len_def split: if_splits)
  have "int k * s \<le> ((n - 1) div s) * s"
    using k assms(1) by (simp add: mult_right_mono)
  moreover have "(n - 1) div s * s + (n - 1) mod s = n - 1" by simp
  moreover have "0 \<le> (n - 1) mod s" using assms(1) by simp
  ultimately show "int k * s < n" by linarith
qed


lemma filter_antitone_upt:
  assumes "\<And>j k. Q k \<Longrightarrow> j \<le> k \<Longrightarrow> Q j"
  shows "filter Q [0..<n] = [0..<length (filter Q [0..<n])]"
proof (induction n)
  case 0
  show ?case by simp
next
  case (Suc n)
  show ?case
  proof (cases "Q n")
    case True
    then have "\<forall>j \<in> set [0..<n]. Q j" using assms by auto
    then have "filter Q [0..<n] = [0..<n]" by (simp only: filter_True)
    with True show ?thesis by simp
  next
    case False
    with Suc show ?thesis by simp
  qed
qed

lemma keep_antitone:
  fixes s c n :: int
  assumes "0 < s" "1 \<le> c \<or> (c < 0 \<and> int k * s < - c \<and> - c < n)" "j \<le> k"
  shows "1 \<le> c \<or> (c < 0 \<and> int j * s < - c \<and> - c < n)"
proof -
  have "int j * s \<le> int k * s" using assms(1,3) by (simp add: mult_right_mono)
  with assms(2) show ?thesis by linarith
qed

lemma range_len_covers:
  assumes "0 < s" "0 \<le> j" "j < n"
  shows "nat (j div s) < range_len 0 n s"
proof -
  have "j div s \<le> (n - 1) div s"
    using assms by (intro zdiv_mono1) simp_all
  moreover have "0 \<le> j div s" using assms by (simp add: pos_imp_zdiv_nonneg_iff)
  ultimately show ?thesis using assms by (simp add: range_len_def)
qed

subsection \<open>The shape of the chunker's result\<close>

text \<open>
  With a positive stride the chunks are those at the first \<open>m\<close> offsets of the range, for
  some \<open>m\<close>, and at all of them when \<open>chunk_size\<close> is positive.
\<close>

lemma chunk_text_shape:
  assumes "overlap < chunk_size"
  shows "\<exists>m \<le> range_len 0 (int (length (split_str text))) (chunk_size - overlap).
           chunk_text text chunk_size overlap =
             Inr (map (\<lambda>k. chunk_at (split_str text) chunk_size (int k * (chunk_size - overlap)))
                    [0..<m])
         \<and> (1 \<le> chunk_size \<longrightarrow>
                m = range_len 0 (int (length (split_str text))) (chunk_size - overlap))"
proof -
  define W where "W = split_str text"
  define s where "s = chunk_size - overlap"
  define L where "L = range_len 0 (int (length W)) s"
  define Q where
    "Q = (\<lambda>k::nat. 1 \<le> chunk_size \<or>
           (chunk_size < 0 \<and> int k * s < - chunk_size \<and> - chunk_size < int (length W)))"
  have s: "0 < s" using assms by (simp add: s_def)
  have W: "[] \<notin> set W" unfolding W_def by (rule split_str_nonempty)
  have keep: "slice W (int k * s) (int k * s + chunk_size) \<noteq> [] \<longleftrightarrow> Q k" if "k < L" for k
    using slice_nonempty_iff [OF range_item_bounds [OF s that [unfolded L_def]], of chunk_size]
    by (simp add: Q_def)
  have "chunk_text text chunk_size overlap =
      Inr (map (chunk_at W chunk_size)
             (filter (\<lambda>i. slice W i (i + chunk_size) \<noteq> []) (map (\<lambda>k. int k * s) [0..<L])))"
    using s by (simp add: chunk_text_def range_py_def Let_def chunk_loop_filter [OF W]
        W_def [symmetric] s_def [symmetric] L_def [symmetric])
  also have "filter (\<lambda>i. slice W i (i + chunk_size) \<noteq> []) (map (\<lambda>k. int k * s) [0..<L])
      = map (\<lambda>k. int k * s) (filter Q [0..<L])"
  proof -
    have "filter (\<lambda>k. slice W (int k * s) (int k * s + chunk_size) \<noteq> []) [0..<L]
        = filter Q [0..<L]"
      by (rule filter_cong) (simp_all add: keep)
    then show ?thesis by (simp add: filter_map o_def)
  qed
  also have "filter Q [0..<L] = [0..<length (filter Q [0..<L])]"
    by (rule filter_antitone_upt) (unfold Q_def, rule keep_antitone [OF s])
  finally have eq: "chunk_text text chunk_size overlap =
      Inr (map (\<lambda>k. chunk_at W chunk_size (int k * s)) [0..<length (filter Q [0..<L])])"
    by (simp add: o_def)
  have le: "length (filter Q [0..<L]) \<le> L"
    using length_filter_le [of Q "[0..<L]"] by simp
  have full: "length (filter Q [0..<L]) = L" if "1 \<le> chunk_size"
    using that by (simp add: Q_def)
  show ?thesis
    using eq le full unfolding W_def s_def L_def by blast
qed

subsection \<open>Claims about the chunker\<close>

text \<open>
  C2 (amended).  The specification counts \<open>ceil(max(N - O, 0) / (C - O))\<close> chunks for a
  text of \<open>N > 0\<close> words.  The loop of \<open>chunk_text\<close> runs over every offset of the range
  below \<open>N\<close>, so for every text of \<open>N\<close> words, every \<open>chunk_size \<ge> 1\<close> and every
  \<open>overlap < chunk_size\<close> the chunker returns exactly \<open>ceil(N / (chunk_size - overlap))\<close>
  chunks.
\<close>

theorem chunk_count:
  assumes "1 \<le> chunk_size" "overlap < chunk_size"
  shows "\<exists>chunks. chunk_text text chunk_size overlap = Inr chunks \<and>
           int (length chunks) =
             \<lceil>real (length (split_str text)) / real_of_int (chunk_size - overlap)\<rceil>"
proof -
  from chunk_text_shape [OF assms(2), of "text"] assms(1)
  have "chunk_text text chunk_size overlap =
      Inr (map (\<lambda>k. chunk_at (split_str text) chunk_size (int k * (chunk_size - overlap)))
        [0..<range_len 0 (int (length (split_str text))) (chunk_size - overlap)])"
    by auto
  moreover have "int (range_len 0 (int (length (split_str text))) (chunk_size - overlap)) =
      \<lceil>real (length (split_str text)) / real_of_int (chunk_size - overlap)\<rceil>"
    using assms(2) by (intro range_len_ceiling) simp
  ultimately show ?thesis by simp
qed

theorem chunk_count_witness:
  "(1::int) \<le> 3 \<and> (1::int) < 3 \<and>
   (\<exists>chunks. chunk_text ''the cat sat on the mat'' 3 1 = Inr chunks \<and>
      int (length chunks) = \<lceil>real (length (split_str ''the cat sat on the mat'')) / real_of_int (3 - 1)\<rceil>)"
  using chunk_count [of 3 1 "''the cat sat on the mat''"] by simp

text \<open>
  The claim as the specification states it fails for the one-word text \<open>a\<close> with
  \<open>chunk_size = 2\<close> and \<open>overlap = 1\<close>: the chunker returns one chunk, the formula
  gives none.
\<close>

theorem chunk_count_counterexample:
  "split_str ''a'' = [''a''] \<and>
   chunk_text ''a'' 2 1 = Inr [\<lparr>text_c = ''a'', start_idx = 0\<rparr>] \<and>
   spec_chunk_count 1 2 1 = 0"
  by (simp add: spec_chunk_count_def) code_simp

text \<open>
  C3.  For every text and every \<open>overlap < chunk_size\<close> the chunker returns a sequence
  whose first chunk, if there is one, starts at offset 0, and in which every later
  chunk starts exactly \<open>chunk_size - overlap\<close> words after the chunk before it.
\<close>

theorem chunk_stride:
  assumes "overlap < chunk_size"
  shows "\<exists>chunks. chunk_text text chunk_size overlap = Inr chunks \<and>
           (chunks \<noteq> [] \<longrightarrow> start_idx (hd chunks) = 0) \<and>
           (\<forall>k. Suc k < length chunks \<longrightarrow>
              start_idx (chunks ! Suc k) = start_idx (chunks ! k) + (chunk_size - overlap))"
proof -
  from chunk_text_shape [OF assms, of "text"] obtain m where
    eq: "chunk_text text chunk_size overlap =
      Inr (map (\<lambda>k. chunk_at (split_str text) chunk_size (int k * (chunk_size - overlap))) [0..<m])"
    by blast
  have "start_idx (hd (map (\<lambda>k. chunk_at (split_str text) chunk_size
      (int k * (chunk_size - overlap))) [0..<m])) = 0" if "0 < m"
    using that by (simp add: hd_map chunk_at_def upt_conv_Cons)
  moreover have "start_idx (map (\<lambda>k. chunk_at (split_str text) chunk_size
        (int k * (chunk_size - overlap))) [0..<m] ! Suc k) =
      start_idx (map (\<lambda>k. chunk_at (split_str text) chunk_size
        (int k * (chunk_size - overlap))) [0..<m] ! k) + (chunk_size - overlap)"
    if "Suc k < m" for k
    using that by (simp add: chunk_at_def algebra_simps)
  ultimately show ?thesis using eq by auto
qed

theorem chunk_stride_witness:
  "(1::int) < 3 \<and>
   (\<exists>chunks. chunk_text ''the cat sat on the mat'' 3 1 = Inr chunks \<and>
      (chunks \<noteq> [] \<longrightarrow> start_idx (hd chunks) = 0) \<and>
      (\<forall>k. Suc k < length chunks \<longrightarrow>
         start_idx (chunks ! Suc k) = start_idx (chunks ! k) + (3 - 1)))"
  using chunk_stride [of 1 3 "''the cat sat on the mat''"] by simp

text \<open>
  C4 (amended).  The chunker does not check its configuration.  For every text, when
  \<open>overlap = chunk_size\<close> the stride is zero and \<open>range\<close> raises a \<open>ValueError\<close>; when
  \<open>overlap > chunk_size\<close> the stride is negative, the range is empty and the chunker
  returns the empty sequence without an error.  It loops in neither case.
\<close>

theorem chunk_invalid:
  assumes "chunk_size \<le> overlap"
  shows "chunk_text text chunk_size overlap =
           (if overlap = chunk_size then Inl (ValueError ''range() arg 3 must not be zero'')
            else Inr [])"
  using assms by (simp add: chunk_text_def range_py_def range_len_def Let_def)

theorem chunk_invalid_witness:
  "(3::int) \<le> 3 \<and> (3::int) \<le> 5 \<and>
   chunk_text ''the cat sat'' 3 3 = Inl (ValueError ''range() arg 3 must not be zero'') \<and>
   chunk_text ''the cat sat'' 3 5 = Inr []"
  using chunk_invalid [of 3 3 "''the cat sat''"] chunk_invalid [of 3 5 "''the cat sat''"]
  by simp

text \<open>
  The claim as stated fails for \<open>chunk_size = 1\<close> and \<open>overlap = 2\<close>: the chunker returns
  a result, the empty sequence.
\<close>

theorem chunk_invalid_counterexample:
  "(1::int) \<le> 2 \<and> chunk_text ''a b'' 1 2 = Inr []"
  by code_simp

text \<open>
  C5 (amended).  Chunking the text \<open>the cat sat on the mat\<close> with \<open>chunk_size = 3\<close> and
  \<open>overlap = 1\<close> returns exactly the three chunks \<open>the cat sat\<close>, \<open>sat on the\<close> and
  \<open>the mat\<close>, with the start offsets 0, 2 and 4 in that order.
\<close>

theorem chunk_example:
  "chunk_text ''the cat sat on the mat'' 3 1 =
     Inr [\<lparr>text_c = ''the cat sat'', start_idx = 0\<rparr>, \<lparr>text_c = ''sat on the'', start_idx = 2\<rparr>,
          \<lparr>text_c = ''the mat'', start_idx = 4\<rparr>]"
  by code_simp

text \<open>
  The result is not the four chunks at the offsets 0, 2, 4 and 6 that the
  specification lists.
\<close>

theorem chunk_example_counterexample:
  "chunk_text ''the cat sat on the mat'' 3 1 \<noteq>
     Inr [\<lparr>text_c = ''the cat sat'', start_idx = 0\<rparr>, \<lparr>text_c = ''sat on the'', start_idx = 2\<rparr>,
          \<lparr>text_c = ''on the mat'', start_idx = 4\<rparr>, \<lparr>text_c = ''the mat'', start_idx = 6\<rparr>]"
  by code_simp

text \<open>
  C10.  For every text and every \<open>0 \<le> overlap < chunk_size\<close>, every chunk the chunker
  returns has as its text the single-space join of the \<open>chunk_size\<close> words from its
  \<open>start_idx\<close> on (fewer at the end of the word sequence), its text is not empty and its
  \<open>start_idx\<close> is an index of the word sequence; and every word of the input lies in
  the window of at least one chunk.
\<close>

theorem chunk_coherence:
  assumes "0 \<le> overlap" "overlap < chunk_size"
  shows "\<exists>chunks. chunk_text text chunk_size overlap = Inr chunks \<and>
           (\<forall>c \<in> set chunks.
              text_c c = join_str '' '' (take (nat chunk_size) (drop (nat (start_idx c)) (split_str text))) \<and>
              text_c c \<noteq> [] \<and> 0 \<le> start_idx c \<and> start_idx c < int (length (split_str text))) \<and>
           (\<forall>j < length (split_str text). \<exists>c \<in> set chunks.
              start_idx c \<le> int j \<and> int j < start_idx c + chunk_size \<and>
              split_str text ! j \<in> set (take (nat chunk_size) (drop (nat (start_idx c)) (split_str text))))"
proof -
  define W where "W = split_str text"
  define s where "s = chunk_size - overlap"
  define L where "L = range_len 0 (int (length W)) s"
  define cs where "cs = map (\<lambda>k. chunk_at W chunk_size (int k * s)) [0..<L]"
  have s: "0 < s" and c1: "1 \<le> chunk_size" and sc: "s \<le> chunk_size"
    using assms by (simp_all add: s_def)
  have W: "[] \<notin> set W" unfolding W_def by (rule split_str_nonempty)
  have eq: "chunk_text text chunk_size overlap = Inr cs"
    using chunk_text_shape [OF assms(2), of "text"] c1 unfolding cs_def W_def s_def L_def by auto
  have each: "text_c c = join_str '' '' (take (nat chunk_size) (drop (nat (start_idx c)) W)) \<and>
      text_c c \<noteq> [] \<and> 0 \<le> start_idx c \<and> start_idx c < int (length W)"
    if "c \<in> set cs" for c
  proof -
    from that obtain k where k: "k < L" and c: "c = chunk_at W chunk_size (int k * s)"
      by (auto simp: cs_def)
    note b = range_item_bounds [OF s k [unfolded L_def]]
    have win: "slice W (int k * s) (int k * s + chunk_size) =
        take (nat chunk_size) (drop (nat (int k * s)) W)"
      using b(1) c1 by (rule slice_window)
    have ne: "slice W (int k * s) (int k * s + chunk_size) \<noteq> []"
      using slice_nonempty_iff [OF b, of chunk_size] c1 by simp
    have "[] \<notin> set (slice W (int k * s) (int k * s + chunk_size))"
      using W slice_subset [of W "int k * s" "int k * s + chunk_size"] by auto
    then have "join_str '' '' (slice W (int k * s) (int k * s + chunk_size)) \<noteq> []"
      using ne by (simp add: join_str_Nil_iff)
    then show ?thesis using b win by (simp add: c chunk_at_def)
  qed
  have cover: "\<exists>c \<in> set cs. start_idx c \<le> int j \<and> int j < start_idx c + chunk_size \<and>
      W ! j \<in> set (take (nat chunk_size) (drop (nat (start_idx c)) W))"
    if j: "j < length W" for j
  proof -
    define k where "k = nat (int j div s)"
    have k: "k < L"
      unfolding k_def L_def using s j by (intro range_len_covers) simp_all
    have ks: "int k * s \<le> int j" "int j < int k * s + s"
    proof -
      have q: "0 \<le> int j div s" using s by (simp add: pos_imp_zdiv_nonneg_iff)
      then have kq: "int k * s = int j div s * s" by (simp add: k_def)
      have "int j div s * s + int j mod s = int j" by simp
      moreover have "0 \<le> int j mod s" "int j mod s < s" using s by simp_all
      ultimately show "int k * s \<le> int j" "int j < int k * s + s"
        using kq by linarith+
    qed
    define c where "c = chunk_at W chunk_size (int k * s)"
    have st: "start_idx c = int k * s" by (simp add: c_def chunk_at_def)
    have mem: "c \<in> set cs" using k by (auto simp: cs_def c_def)
    have "nat (int k * s) \<le> j" using ks(1) by simp
    then obtain d where d: "j = nat (int k * s) + d" using le_Suc_ex by blast
    have dlt: "d < nat chunk_size" using ks sc d by linarith
    have "take (nat chunk_size) (drop (nat (int k * s)) W) ! d = W ! j"
      using dlt j d by simp
    moreover have "d < length (take (nat chunk_size) (drop (nat (int k * s)) W))"
      using dlt j d by simp
    ultimately have "W ! j \<in> set (take (nat chunk_size) (drop (nat (int k * s)) W))"
      using nth_mem by metis
    then show ?thesis using mem st ks sc by (intro bexI [of _ c]) auto
  qed
  show ?thesis
    using eq each cover unfolding W_def by blast
qed

theorem chunk_coherence_witness:
  "(0::int) \<le> 1 \<and> (1::int) < 3 \<and>
   (\<exists>chunks. chunk_text ''the cat sat on the mat'' 3 1 = Inr chunks \<and>
      (\<forall>c \<in> set chunks.
         text_c c = join_str '' '' (take (nat 3) (drop (nat (start_idx c))
                      (split_str ''the cat sat on the mat''))) \<and>
         text_c c \<noteq> [] \<and> 0 \<le> start_idx c \<and>
         start_idx c < int (length (split_str ''the cat sat on the mat''))) \<and>
      (\<forall>j < length (split_str ''the cat sat on the mat''). \<exists>c \<in> set chunks.
         start_idx c \<le> int j \<and> int j < start_idx c + 3 \<and>
         split_str ''the cat sat on the mat'' ! j \<in>
           set (take (nat 3) (drop (nat (start_idx c)) (split_str ''the cat sat on the mat'')))))"
  using chunk_coherence [of 1 3 "''the cat sat on the mat''"] by simp

subsection \<open>Claims about the identifier resolver\<close>

text \<open>
  C6.  \<open>extract_video_id\<close> returns \<open>abc123\<close> for the watch, the short-link and the embed
  form of the reference, and raises \<open>ValueError\<close>, the invalid-reference error, for
  \<open>not a url\<close>.
\<close>

theorem extract_video_id_examples:
  "extract_video_id ''https://www.youtube.com/watch?v=abc123'' = Inr ''abc123'' \<and>
   extract_video_id ''https://youtu.be/abc123'' = Inr ''abc123'' \<and>
   extract_video_id ''https://www.youtube.com/embed/abc123'' = Inr ''abc123'' \<and>
   extract_video_id ''not a url'' = Inl (ValueError ''Invalid YouTube URL'')"
  by code_simp

section \<open>Properties of the endpoints\<close>

subsection \<open>The stored points of a video\<close>

lemma make_points_length:
  "length (make_points uuid vid url chunks embeddings) = min (length chunks) (length embeddings)"
  by (simp add: make_points_def enumerate_eq_zip)

lemma make_points_nth:
  assumes "k < length chunks" "k < length embeddings"
  shows "make_points uuid vid url chunks embeddings ! k =
     \<lparr>point_id = uuid k, vector = embeddings ! k,
      payload = \<lparr>video_id = vid, text_p = text_c (chunks ! k), chunk_index = k,
                 video_url_p = url\<rparr>\<rparr>"
  using assms by (simp add: make_points_def nth_enumerate_eq)

lemma make_points_ids:
  "map point_id (make_points uuid vid url chunks embeddings) =
     map uuid [0..<min (length chunks) (length embeddings)]"
  by (rule nth_equalityI) (simp_all add: make_points_length make_points_nth)

lemma make_points_matches:
  "p \<in> set (make_points uuid vid url chunks embeddings) \<Longrightarrow> matches vid p"
  by (auto simp: make_points_def matches_def)

lemma fold_upsert_matches:
  assumes "distinct (map point_id ps)" "\<forall>p \<in> set ps. matches vid p"
    "point_id ` set ps \<inter> point_id ` set (filter (matches vid) base) = {}"
  shows "filter (matches vid) (fold upsert_point ps base) = filter (matches vid) base @ ps"
  using assms
proof (induction ps arbitrary: base)
  case Nil
  then show ?case by simp
next
  case (Cons p ps)
  have np: "\<forall>q \<in> set base. matches vid q \<longrightarrow> point_id q \<noteq> point_id p"
  proof (intro ballI impI notI)
    fix q
    assume q: "q \<in> set base" "matches vid q" "point_id q = point_id p"
    then have "point_id p \<in> point_id ` set (filter (matches vid) base)"
      by (auto simp: image_iff intro!: bexI [of _ q])
    moreover have "point_id p \<in> point_id ` set (p # ps)" by simp
    ultimately show False using Cons.prems(3) by blast
  qed
  have keep: "filter (\<lambda>q. point_id q \<noteq> point_id p \<and> matches vid q) base =
      filter (matches vid) base"
    by (rule filter_cong) (use np in auto)
  have step: "filter (matches vid) (upsert_point p base) = filter (matches vid) base @ [p]"
    using Cons.prems(2) keep by (simp add: upsert_point_def)
  have "filter (matches vid) (fold upsert_point ps (upsert_point p base)) =
      filter (matches vid) (upsert_point p base) @ ps"
  proof (rule Cons.IH)
    show "distinct (map point_id ps)" using Cons.prems(1) by simp
    show "\<forall>p \<in> set ps. matches vid p" using Cons.prems(2) by simp
    show "point_id ` set ps \<inter> point_id ` set (filter (matches vid) (upsert_point p base)) = {}"
      using Cons.prems(1,3) unfolding step by auto
  qed
  then show ?case by (simp add: step)
qed

lemma store_points_stored:
  assumes "c COLLECTION_NAME = Some pts"
    and "distinct (map uuid [0..<min (length chunks) (length embeddings)])"
  shows "\<exists>c'. store_points uuid c vid url chunks embeddings = (Inr (), c') \<and>
           c' COLLECTION_NAME \<noteq> None \<and>
           stored c' vid = make_points uuid vid url chunks embeddings"
proof -
  define ps where "ps = make_points uuid vid url chunks embeddings"
  define base where "base = filter (\<lambda>p. \<not> matches vid p) pts"
  have base: "filter (matches vid) base = []" by (simp add: base_def)
  have "filter (matches vid) (fold upsert_point ps base) = filter (matches vid) base @ ps"
  proof (rule fold_upsert_matches)
    show "distinct (map point_id ps)" using assms(2) by (simp add: ps_def make_points_ids)
    show "\<forall>p \<in> set ps. matches vid p" by (simp add: ps_def make_points_matches)
    show "point_id ` set ps \<inter> point_id ` set (filter (matches vid) base) = {}"
      by (simp add: base)
  qed
  then have "filter (matches vid) (fold upsert_point ps base) = ps" by (simp add: base)
  then show ?thesis
    using assms(1)
    by (simp add: store_points_def qdrant_delete_def qdrant_upsert_def stored_def Let_def
        ps_def base_def)
qed

text \<open>The two references the instances below resolve.\<close>

lemma extract_watch_url:
  "extract_video_id ''https://www.youtube.com/watch?v=abc123'' = Inr ''abc123''"
  by code_simp

lemma extract_short_url:
  "extract_video_id ''https://youtu.be/nothing'' = Inr ''nothing''"
  by code_simp

text \<open>
  The program's collection exists after \<open>startup_event\<close>, and the endpoints keep it.
\<close>

lemma startup_event_creates:
  "\<exists>c'. startup_event c = Inr c' \<and> c' COLLECTION_NAME \<noteq> None \<and>
        (c COLLECTION_NAME \<noteq> None \<longrightarrow> c' = c)"
  by (auto simp: startup_event_def create_collection_if_not_exists_def
      qdrant_get_collection_def qdrant_create_collection_def split: option.splits)

lemma store_points_keeps_collection:
  "c COLLECTION_NAME \<noteq> None \<Longrightarrow>
     snd (store_points uuid c vid url chunks embeddings) COLLECTION_NAME \<noteq> None"
  by (auto simp: store_points_def qdrant_delete_def qdrant_upsert_def Let_def)

lemma process_video_keeps_collection:
  assumes "c COLLECTION_NAME \<noteq> None"
  shows "snd (process_video env c request) COLLECTION_NAME \<noteq> None"
proof -
  have "c' COLLECTION_NAME \<noteq> None"
    if "store_points uuid c vid url chunks embeddings = (r, c')"
    for uuid vid url chunks embeddings r c'
    using store_points_keeps_collection [where c = c and uuid = uuid and vid = vid
        and url = url and chunks = chunks and embeddings = embeddings] assms that
    by simp
  then show ?thesis
    using assms by (auto simp: process_video_def split: sum.splits prod.splits)
qed

lemma delete_video_keeps_collection:
  "c COLLECTION_NAME \<noteq> None \<Longrightarrow> snd (delete_video c vid) COLLECTION_NAME \<noteq> None"
  by (auto simp: delete_video_def qdrant_delete_def)

text \<open>
  A request to \<open>process_video\<close> that succeeds leaves under the video identifier exactly
  the points built from the chunks of its transcript, when \<open>uuid4\<close> never repeats a value.
\<close>

lemma store_points_ok_collection:
  assumes "store_points uuid c vid url chunks embeddings = (Inr u, c')"
  shows "c COLLECTION_NAME \<noteq> None"
  using assms
  by (auto simp: store_points_def qdrant_delete_def qdrant_upsert_def Let_def
      split: option.splits)

lemma process_video_stored:
  assumes "process_video env c request = (Inr resp, c')"
    and "inj (uuid4 env)"
  shows "\<exists>vid transcript chunks embeddings.
           extract_video_id (video_url request) = Inr vid \<and>
           fetch_transcript env vid = Inr transcript \<and>
           chunk_text transcript 500 100 = Inr chunks \<and>
           embed env (map text_c chunks) = Inr embeddings \<and>
           stored c' vid = make_points (uuid4 env) vid (video_url request) chunks embeddings \<and>
           chunks_created resp = length chunks"
proof -
  from assms(1) obtain vid transcript chunks embeddings u where
    v: "extract_video_id (video_url request) = Inr vid"
    and t: "fetch_transcript env vid = Inr transcript"
    and ch: "chunk_text transcript 500 100 = Inr chunks"
    and em: "embed env (map text_c chunks) = Inr embeddings"
    and st: "store_points (uuid4 env) c vid (video_url request) chunks embeddings = (Inr u, c')"
    and n: "chunks_created resp = length chunks"
    by (auto simp: process_video_def split: sum.splits if_splits prod.splits)
  from store_points_ok_collection [OF st] obtain pts where e: "c COLLECTION_NAME = Some pts"
    by auto
  have d: "distinct (map (uuid4 env) [0..<min (length chunks) (length embeddings)])"
    using assms(2) by (simp add: distinct_map inj_on_def inj_def)
  from store_points_stored [of c pts "uuid4 env" chunks embeddings vid "video_url request",
      OF e d] st
  have "stored c' vid = make_points (uuid4 env) vid (video_url request) chunks embeddings"
    by auto
  with v t ch em n show ?thesis by blast
qed

subsection \<open>Claims about ingest, deletion and questions\<close>

text \<open>
  C1.  For every video identifier, running the delete-then-insert part of
  \<open>process_video\<close> with the chunks \<open>chunks_a\<close> and then again with the chunks \<open>chunks_b\<close>
  leaves exactly the points of the second run stored under the identifier: one point
  per (chunk, vector) pair of the second run, the \<open>k\<close>-th carrying \<open>chunk_index = k\<close>, the
  text of the \<open>k\<close>-th chunk and the \<open>k\<close>-th vector; no point of the first run remains.
  The collection exists, and the identifiers drawn in the second run are distinct.
\<close>

theorem replace_semantics:
  assumes "c COLLECTION_NAME = Some pts"
    and "distinct (map uuid_b [0..<min (length chunks_b) (length embeddings_b)])"
  shows "\<exists>c1 c2.
           store_points uuid_a c vid url_a chunks_a embeddings_a = (Inr (), c1) \<and>
           store_points uuid_b c1 vid url_b chunks_b embeddings_b = (Inr (), c2) \<and>
           stored c2 vid = make_points uuid_b vid url_b chunks_b embeddings_b \<and>
           length (stored c2 vid) = min (length chunks_b) (length embeddings_b) \<and>
           (\<forall>k < min (length chunks_b) (length embeddings_b).
              stored c2 vid ! k =
                \<lparr>point_id = uuid_b k, vector = embeddings_b ! k,
                 payload = \<lparr>video_id = vid, text_p = text_c (chunks_b ! k), chunk_index = k,
                            video_url_p = url_b\<rparr>\<rparr>)"
proof -
  have "\<exists>c1. store_points uuid_a c vid url_a chunks_a embeddings_a = (Inr (), c1) \<and>
      c1 COLLECTION_NAME \<noteq> None"
    using assms(1)
    by (simp add: store_points_def qdrant_delete_def qdrant_upsert_def Let_def)
  then obtain c1 pts1 where
    c1: "store_points uuid_a c vid url_a chunks_a embeddings_a = (Inr (), c1)"
    and e1: "c1 COLLECTION_NAME = Some pts1"
    by auto
  from store_points_stored [of c1 pts1 uuid_b chunks_b embeddings_b vid url_b, OF e1 assms(2)] obtain c2 where
    c2: "store_points uuid_b c1 vid url_b chunks_b embeddings_b = (Inr (), c2)"
    and st: "stored c2 vid = make_points uuid_b vid url_b chunks_b embeddings_b"
    by blast
  show ?thesis
    using c1 c2 st by (simp add: make_points_length make_points_nth)
qed

theorem replace_semantics_witness:
  "example_store COLLECTION_NAME =
     Some [example_point ''p0'' ''abc123'' 0, example_point ''q0'' ''xyz789'' 0,
           example_point ''p1'' ''abc123'' 1] \<and>
   distinct (map (\<lambda>k. replicate (Suc k) CHR ''b'')
     [0..<min (length [\<lparr>text_c = ''the mat'', start_idx = 0\<rparr>]) (length [7::int])]) \<and>
   (\<exists>c1 c2.
      store_points (\<lambda>k. replicate (Suc k) CHR ''a'') example_store ''abc123'' ''url a''
        [\<lparr>text_c = ''the cat'', start_idx = 0\<rparr>, \<lparr>text_c = ''cat sat'', start_idx = 1\<rparr>]
        [1, 2] = (Inr (), c1) \<and>
      store_points (\<lambda>k. replicate (Suc k) CHR ''b'') c1 ''abc123'' ''url b''
        [\<lparr>text_c = ''the mat'', start_idx = 0\<rparr>] [7] = (Inr (), c2) \<and>
      stored c2 ''abc123'' =
        [\<lparr>point_id = ''b'', vector = 7,
          payload = \<lparr>video_id = ''abc123'', text_p = ''the mat'', chunk_index = 0,
                     video_url_p = ''url b''\<rparr>\<rparr>])"
  using replace_semantics [of example_store _ "\<lambda>k. replicate (Suc k) CHR ''b''"
      "[\<lparr>text_c = ''the mat'', start_idx = 0\<rparr>]" "[7]"
      "\<lambda>k. replicate (Suc k) CHR ''a''" "''abc123''" "''url a''"
      "[\<lparr>text_c = ''the cat'', start_idx = 0\<rparr>, \<lparr>text_c = ''cat sat'', start_idx = 1\<rparr>]"
      "[1, 2]" "''url b''"]
  by (simp add: example_store_def make_points_def enumerate_eq_zip) blast

text \<open>
  C8.  \<open>delete_video\<close> succeeds for every video identifier, whether or not points are
  stored under it; afterwards no point of that identifier remains, and deleting once
  more succeeds again.
\<close>

theorem delete_video_succeeds:
  assumes "c COLLECTION_NAME = Some pts"
  shows "\<exists>c'. delete_video c vid = (Inr (''Video '' @ vid @ '' deleted successfully''), c') \<and>
           stored c' vid = [] \<and>
           c' COLLECTION_NAME = Some (filter (\<lambda>p. \<not> matches vid p) pts) \<and>
           fst (delete_video c' vid) = Inr (''Video '' @ vid @ '' deleted successfully'')"
  using assms by (simp add: delete_video_def qdrant_delete_def stored_def)

theorem delete_video_succeeds_witness:
  "example_store COLLECTION_NAME =
     Some [example_point ''p0'' ''abc123'' 0, example_point ''q0'' ''xyz789'' 0,
           example_point ''p1'' ''abc123'' 1] \<and>
   stored example_store ''nothing'' = [] \<and>
   (\<exists>c'. delete_video example_store ''nothing'' =
           (Inr ''Video nothing deleted successfully'', c') \<and>
         stored c' ''nothing'' = [] \<and>
         fst (delete_video c' ''nothing'') = Inr ''Video nothing deleted successfully'')"
  using delete_video_succeeds [of example_store _ "''nothing''"]
  by (simp add: example_store_def stored_def matches_def example_point_def) blast

text \<open>
  C7.  For a video identifier with no stored points the filtered similarity query
  returns the empty result, not an error, and \<open>ask_question\<close> on a reference to such a
  video raises \<open>HTTPException\<close> with status 404.
\<close>

theorem ask_no_content:
  assumes "c COLLECTION_NAME = Some pts" "stored c vid = []"
    and "extract_video_id (video_url request) = Inr vid"
    and "embed env [question request] = Inr (question_embedding # rest)"
  shows "qdrant_query_points sim c COLLECTION_NAME query vid limit = Inr [] \<and>
         ask_question env c request =
           Inl (HTTPException 404
             ''No content found for this video. Please process the video first.'')"
  using assms by (simp add: ask_question_def qdrant_query_points_def stored_def)

theorem ask_no_content_witness:
  "example_store COLLECTION_NAME =
     Some [example_point ''p0'' ''abc123'' 0, example_point ''q0'' ''xyz789'' 0,
           example_point ''p1'' ''abc123'' 1] \<and>
   stored example_store ''nothing'' = [] \<and>
   extract_video_id ''https://youtu.be/nothing'' = Inr ''nothing'' \<and>
   embed example_env [''what is said?''] = Inr [13] \<and>
   qdrant_query_points (similarity example_env) example_store COLLECTION_NAME 13 ''nothing'' 5
     = Inr [] \<and>
   ask_question example_env example_store
     \<lparr>video_url = ''https://youtu.be/nothing'', question = ''what is said?''\<rparr> =
     Inl (HTTPException 404
       ''No content found for this video. Please process the video first.'')"
  using ask_no_content [of example_store _ "''nothing''"
      "\<lparr>video_url = ''https://youtu.be/nothing'', question = ''what is said?''\<rparr>"
      example_env 13 "[]" "similarity example_env" 13 5]
  by (simp add: extract_short_url example_store_def example_env_def stored_def matches_def
      example_point_def)

text \<open>
  C9.  For every question and every non-empty sequence of retrieved points,
  \<open>ask_question\<close> sends one prompt to the completion service: the fixed instruction
  text around the texts of the retrieved chunks, joined by blank lines in the order
  retrieved, followed by the question.  The answer of the service is returned unchanged,
  together with the chunk texts in the same order.
\<close>

theorem ask_question_grounding:
  assumes "extract_video_id (video_url request) = Inr vid"
    and "embed env [question request] = Inr (question_embedding # rest)"
    and "qdrant_query_points (similarity env) c COLLECTION_NAME question_embedding vid 5 =
           Inr results"
    and "results \<noteq> []"
    and "chat_completions_create env
           (chat_request
              (''You are a helpful assistant that answers questions about video content.'' @
               nl @ nl @ ''Context from the video transcript:'' @ nl @
               join_str (nl @ nl) (map (\<lambda>r. text_p (payload r)) results) @
               nl @ nl @ ''Question: '' @ question request @ nl @ nl @
               ''Please provide a clear, concise answer based on the context provided. '' @
               ''If the context doesn't contain enough information to answer the question, say so.''))
           = Inr a"
  shows "ask_question env c request =
           Inr \<lparr>answer = a, relevant_chunks = map (\<lambda>r. text_p (payload r)) results\<rparr>"
  using assms by (simp add: ask_question_def prompt_def Let_def)

theorem ask_question_grounding_witness:
  "extract_video_id ''https://www.youtube.com/watch?v=abc123'' = Inr ''abc123'' \<and>
   embed example_env [''what is said?''] = Inr [13] \<and>
   qdrant_query_points (similarity example_env) example_store COLLECTION_NAME 13 ''abc123'' 5 =
     Inr [example_point ''p1'' ''abc123'' 1, example_point ''p0'' ''abc123'' 0] \<and>
   chat_completions_create example_env
     (chat_request (prompt (''chunk p1'' @ nl @ nl @ ''chunk p0'') ''what is said?'')) =
     Inr ''It sat on the mat.'' \<and>
   ask_question example_env example_store
     \<lparr>video_url = ''https://www.youtube.com/watch?v=abc123'', question = ''what is said?''\<rparr> =
     Inr \<lparr>answer = ''It sat on the mat.'', relevant_chunks = [''chunk p1'', ''chunk p0'']\<rparr>"
proof -
  have q: "qdrant_query_points (similarity example_env) example_store COLLECTION_NAME 13
      ''abc123'' 5 = Inr [example_point ''p1'' ''abc123'' 1, example_point ''p0'' ''abc123'' 0]"
    by (simp add: qdrant_query_points_def example_store_def example_env_def matches_def
        example_point_def)
  have e: "embed example_env [''what is said?''] = Inr [13]"
    by (simp add: example_env_def)
  have m: "chat_completions_create example_env (chat_request u) = Inr ''It sat on the mat.''"
    for u by (simp add: example_env_def chat_request_def)
  show ?thesis
    using ask_question_grounding [of
        "\<lparr>video_url = ''https://www.youtube.com/watch?v=abc123'', question = ''what is said?''\<rparr>"
        "''abc123''" example_env 13 "[]" example_store
        "[example_point ''p1'' ''abc123'' 1, example_point ''p0'' ''abc123'' 0]"
        "''It sat on the mat.''"]
    by (simp add: extract_watch_url q e m example_point_def)
qed

end
